theory Spec2Isabelle
  imports Complex_Main
begin

section \<open>Keyboard controls (src/useKeyboardControls.js)\<close>

subsection \<open>JavaScript values and strings used by the hook\<close>

text \<open>
  The hook keeps one plain object whose properties hold booleans. An object is a finite
  map from property names to values; the object spread \<^verbatim>\<open>{ ...c, [name]: v }\<close> copies every
  property of \<open>c\<close> and then sets \<open>name\<close>, which is the map update \<open>c(name \<mapsto> v)\<close>.
\<close>

type_synonym controls = "string \<rightharpoonup> bool"

text \<open>
  \<^verbatim>\<open>e.key.toLowerCase()\<close>. The twenty-six ASCII capitals are replaced by their small
  letters and every other character is kept. Outside ASCII the full Unicode mapping of
  JavaScript can differ, but it never produces one of the key names tested below, so the
  handlers take the same branches.
\<close>

definition asciiUpper :: string where
  "asciiUpper = ''ABCDEFGHIJKLMNOPQRSTUVWXYZ''"

definition asciiLower :: string where
  "asciiLower = ''abcdefghijklmnopqrstuvwxyz''"

definition toLowerCaseChar :: "char \<Rightarrow> char" where
  "toLowerCaseChar ch =
     (case map_of (zip asciiUpper asciiLower) ch of Some l \<Rightarrow> l | None \<Rightarrow> ch)"

definition toLowerCase :: "string \<Rightarrow> string" where
  "toLowerCase s = map toLowerCaseChar s"

text \<open>
  What a property read \<^verbatim>\<open>keyActionMap[key]\<close> can return: one of the strings of the literal,
  \<^verbatim>\<open>undefined\<close>, or a value found on \<^verbatim>\<open>Object.prototype\<close>, which every object literal
  inherits from. After lower-casing only two inherited names can be hit:
  \<^verbatim>\<open>constructor\<close> (the function \<^verbatim>\<open>Object\<close>) and \<^verbatim>\<open>__proto__\<close> (the prototype object itself);
  all other inherited names contain a capital letter.
\<close>

datatype js_value = JSString string | JSObjectConstructor | JSObjectPrototype | JSUndefined

definition keyActionMap :: "string \<Rightarrow> js_value" where
  "keyActionMap key =
     (if key = ''w'' then JSString ''forward''
      else if key = ''s'' then JSString ''backward''
      else if key = ''a'' then JSString ''left''
      else if key = ''d'' then JSString ''right''
      else if key = ''e'' then JSString ''e''
      else if key = ''constructor'' then JSObjectConstructor
      else if key = ''__proto__'' then JSObjectPrototype
      else JSUndefined)"

text \<open>The test \<^verbatim>\<open>if (action)\<close>: a non-empty string or an object is truthy.\<close>

fun truthy :: "js_value \<Rightarrow> bool" where
  "truthy (JSString s) = (s \<noteq> [])"
| "truthy JSObjectConstructor = True"
| "truthy JSObjectPrototype = True"
| "truthy JSUndefined = False"

text \<open>
  The computed property name \<^verbatim>\<open>[action]\<close>: the value converted to a string. A function
  prints as its source text and a plain object as \<^verbatim>\<open>[object Object]\<close>.
\<close>

fun toPropertyKey :: "js_value \<Rightarrow> string" where
  "toPropertyKey (JSString s) = s"
| "toPropertyKey JSObjectConstructor = ''function Object() { [native code] }''"
| "toPropertyKey JSObjectPrototype = ''[object Object]''"
| "toPropertyKey JSUndefined = ''undefined''"

subsection \<open>The hook's state and its two handlers\<close>

text \<open>The argument of \<^verbatim>\<open>useState\<close>: seven properties, all false.\<close>

definition initialControls :: controls where
  "initialControls =
     [''forward'' \<mapsto> False, ''backward'' \<mapsto> False, ''left'' \<mapsto> False, ''right'' \<mapsto> False,
      ''shift'' \<mapsto> False, ''log'' \<mapsto> False, ''e'' \<mapsto> False]"

text \<open>
  Each handler queues up to three state updaters, which React applies in the order they
  were queued; \<open>c1\<close>, \<open>c2\<close> and the result are the states after each of them.
\<close>

definition handleKeyDown :: "string \<Rightarrow> controls \<Rightarrow> controls" where
  "handleKeyDown eventKey c =
     (let key = toLowerCase eventKey;
          c1 = (if key = ''shift'' then c(''shift'' \<mapsto> True) else c);
          c2 = (if key = ''c'' then c1(''log'' \<mapsto> True) else c1);
          action = keyActionMap key
      in if truthy action then c2(toPropertyKey action \<mapsto> True) else c2)"

definition handleKeyUp :: "string \<Rightarrow> controls \<Rightarrow> controls" where
  "handleKeyUp eventKey c =
     (let key = toLowerCase eventKey;
          c1 = (if key = ''shift'' then c(''shift'' \<mapsto> False) else c);
          c2 = (if key = ''c'' then c1(''log'' \<mapsto> False) else c1);
          action = keyActionMap key
      in if truthy action then c2(toPropertyKey action \<mapsto> False) else c2)"





subsection \<open>The names the specification uses\<close>

text \<open>
  The seven flags of the input snapshot, under the names the code gives them
  (sprint is \<open>shift\<close>, interact is \<open>e\<close>, debugLog is \<open>log\<close>).
\<close>

definition flagNames :: "string list" where
  "flagNames = [''forward'', ''backward'', ''left'', ''right'', ''shift'', ''log'', ''e'']"

text \<open>The key-to-flag mapping as the specification lists it, keys in lower case.\<close>

definition keyFlagMapping :: "(string \<times> string) list" where
  "keyFlagMapping =
     [(''w'', ''forward''), (''s'', ''backward''), (''a'', ''left''), (''d'', ''right''),
      (''e'', ''e''), (''shift'', ''shift''), (''c'', ''log'')]"

definition flagOfKey :: "string \<Rightarrow> string option" where
  "flagOfKey eventKey = map_of keyFlagMapping (toLowerCase eventKey)"

text \<open>
  Two key strings that differ only in the case of ASCII letters: equal length, and at
  every position the same character or a capital and its small letter.
\<close>

definition sameLetter :: "char \<Rightarrow> char \<Rightarrow> bool" where
  "sameLetter a b =
     (a = b \<or> (a, b) \<in> set (zip asciiUpper asciiLower) \<or>
      (b, a) \<in> set (zip asciiUpper asciiLower))"

definition sameKeyIgnoringCase :: "string \<Rightarrow> string \<Rightarrow> bool" where
  "sameKeyIgnoringCase k1 k2 = list_all2 sameLetter k1 k2"

text \<open>The lower-case key names that reach a property of \<^verbatim>\<open>Object.prototype\<close>.\<close>

definition inheritedName :: "string \<Rightarrow> bool" where
  "inheritedName key = (key = ''constructor'' \<or> key = ''__proto__'')"

section \<open>Portal trigger and camera follow (App.js)\<close>

text \<open>
  The game loop lives in \<^verbatim>\<open>App.js\<close>, which is not among the sources; the project guide
  describes it (five game states, a distance test against each portal, a camera that
  follows by interpolation) and the specification states its rules. The definitions of
  this section follow the specification. Numbers are real numbers: the rounding of the
  machine's floating point is left out.
\<close>

type_synonym vec3 = "real \<times> real \<times> real"

text \<open>Sum, difference, scaling, length and distance of three.js vectors.\<close>

fun vadd :: "vec3 \<Rightarrow> vec3 \<Rightarrow> vec3" where
  "vadd (x1, y1, z1) (x2, y2, z2) = (x1 + x2, y1 + y2, z1 + z2)"

fun vsub :: "vec3 \<Rightarrow> vec3 \<Rightarrow> vec3" where
  "vsub (x1, y1, z1) (x2, y2, z2) = (x1 - x2, y1 - y2, z1 - z2)"

fun vscale :: "real \<Rightarrow> vec3 \<Rightarrow> vec3" where
  "vscale k (x, y, z) = (k * x, k * y, k * z)"

fun vlength :: "vec3 \<Rightarrow> real" where
  "vlength (x, y, z) = sqrt (x\<^sup>2 + y\<^sup>2 + z\<^sup>2)"

definition distanceTo :: "vec3 \<Rightarrow> vec3 \<Rightarrow> real" where
  "distanceTo p q = vlength (vsub p q)"

text \<open>
  Modelled from the spec: the game mode of the state machine in \<^verbatim>\<open>App.js\<close>, a closed
  enumeration of three steady modes and two transitioning ones (the guide's
  \<^verbatim>\<open>playing_level1\<close>, \<^verbatim>\<open>entering_portal\<close>, \<^verbatim>\<open>playing_level2\<close>, \<^verbatim>\<open>entering_portal_level3\<close>,
  \<^verbatim>\<open>playing_level3\<close>).
\<close>

datatype GameMode =
  OnFootLevel1 | TransitioningToLevel2 | OnFootOrDrivingLevel2 | TransitioningToLevel3 | OnFootLevel3

fun isTransitioning :: "GameMode \<Rightarrow> bool" where
  "isTransitioning TransitioningToLevel2 = True"
| "isTransitioning TransitioningToLevel3 = True"
| "isTransitioning OnFootLevel1 = False"
| "isTransitioning OnFootOrDrivingLevel2 = False"
| "isTransitioning OnFootLevel3 = False"

text \<open>
  Modelled from the spec: a portal of \<^verbatim>\<open>App.js\<close>, immutable per level, with its position,
  trigger radius, target mode and spawn pose (a position and a heading).
\<close>

record Portal =
  position :: vec3
  triggerRadius :: real
  targetMode :: GameMode
  spawnPose :: "vec3 \<times> real"

text \<open>
  Modelled from the spec: the proximity test of the portal evaluator in \<^verbatim>\<open>App.js\<close>, the
  Euclidean distance from the controlled entity to the portal strictly below the trigger
  radius (the guide's \<^verbatim>\<open>distance < portalRadius\<close>).
\<close>

definition withinTrigger :: "vec3 \<Rightarrow> Portal \<Rightarrow> bool" where
  "withinTrigger pos p = (distanceTo pos (position p) < triggerRadius p)"

text \<open>
  Modelled from the spec: the per-frame portal check of \<^verbatim>\<open>App.js\<close>. The registry gives
  each mode its portals in registration order. The result is the transition request
  submitted in this frame, if any: none while the machine is transitioning, otherwise the
  target mode of the first registered portal of the current mode that is within its
  trigger radius.
\<close>

definition evaluatePortals ::
    "(GameMode \<Rightarrow> Portal list) \<Rightarrow> GameMode \<Rightarrow> vec3 \<Rightarrow> GameMode option" where
  "evaluatePortals registry mode pos =
     (if isTransitioning mode then None
      else map_option targetMode (find (withinTrigger pos) (registry mode)))"

text \<open>
  Modelled from the spec: the follow rate of the camera tracker in \<^verbatim>\<open>App.js\<close>, 5.0 in
  steady modes and 2.0 while transitioning.
\<close>

definition followRate :: "GameMode \<Rightarrow> real" where
  "followRate mode = (if isTransitioning mode then 2 else 5)"

text \<open>
  Modelled from the spec: the per-frame camera update of \<^verbatim>\<open>App.js\<close>,
  \<^verbatim>\<open>camera.position += (desired - camera.position) * min(1, dt * followRate)\<close>.
\<close>

definition cameraStep :: "GameMode \<Rightarrow> real \<Rightarrow> vec3 \<Rightarrow> vec3 \<Rightarrow> vec3" where
  "cameraStep mode dt desired pos =
     vadd pos (vscale (min 1 (dt * followRate mode)) (vsub desired pos))"

text \<open>
  A registry for examples: level 1 has two portals one unit apart, both of radius 2, the
  first to level 2 and the second to level 3; the other modes have none.
\<close>

definition levelOnePortals :: "GameMode \<Rightarrow> Portal list" where
  "levelOnePortals mode =
     (if mode = OnFootLevel1 then
        [\<lparr>position = (10, 0, 0), triggerRadius = 2, targetMode = OnFootOrDrivingLevel2,
          spawnPose = ((0, 0, 0), 0)\<rparr>,
         \<lparr>position = (10, 0, 1), triggerRadius = 2, targetMode = OnFootLevel3,
          spawnPose = ((0, 0, 0), 0)\<rparr>]
      else [])"

section \<open>Properties of the keyboard controls\<close>

lemma flagOfKey_cases:
  "flagOfKey k = Some f \<Longrightarrow>
     (toLowerCase k = ''w'' \<and> f = ''forward'') \<or> (toLowerCase k = ''s'' \<and> f = ''backward'') \<or>
     (toLowerCase k = ''a'' \<and> f = ''left'') \<or> (toLowerCase k = ''d'' \<and> f = ''right'') \<or>
     (toLowerCase k = ''e'' \<and> f = ''e'') \<or> (toLowerCase k = ''shift'' \<and> f = ''shift'') \<or>
     (toLowerCase k = ''c'' \<and> f = ''log'')"
  by (simp add: flagOfKey_def keyFlagMapping_def split: if_splits)

lemma handleKeyDown_mapped:
  "flagOfKey k = Some f \<Longrightarrow> handleKeyDown k c = c(f \<mapsto> True)"
  by (drule flagOfKey_cases) (auto simp: handleKeyDown_def keyActionMap_def)

lemma handleKeyUp_mapped:
  "flagOfKey k = Some f \<Longrightarrow> handleKeyUp k c = c(f \<mapsto> False)"
  by (drule flagOfKey_cases) (auto simp: handleKeyUp_def keyActionMap_def)

text \<open>
  C2. Input flags track the key state. For every snapshot and every mapped key (in any
  letter case), key-down sets the key's flag to true and changes nothing else, key-up
  sets it to false and changes nothing else, and key-down followed by key-up of that key
  gives the original snapshot with the key's flag set to false; when the flag was false
  before, the round trip gives back the snapshot itself.
\<close>

theorem keydown_keyup_roundtrip:
  "flagOfKey k = Some f \<Longrightarrow>
     handleKeyDown k c = c(f \<mapsto> True) \<and>
     handleKeyDown k c f = Some True \<and>
     handleKeyUp k c = c(f \<mapsto> False) \<and>
     handleKeyUp k (handleKeyDown k c) = c(f \<mapsto> False) \<and>
     handleKeyUp k (handleKeyDown k c) f = Some False \<and>
     (c f = Some False \<longrightarrow> handleKeyUp k (handleKeyDown k c) = c)"
proof -
  assume mapped: "flagOfKey k = Some f"
  have down: "handleKeyDown k c = c(f \<mapsto> True)"
    by (rule handleKeyDown_mapped [OF mapped])
  have up: "handleKeyUp k c = c(f \<mapsto> False)"
    by (rule handleKeyUp_mapped [OF mapped])
  have rt: "handleKeyUp k (handleKeyDown k c) = c(f \<mapsto> False)"
    by (simp add: down handleKeyUp_mapped [OF mapped])
  have "c(f \<mapsto> False) = c" if "c f = Some False"
    using that by (rule map_upd_triv)
  with down up rt show ?thesis
    by simp
qed

theorem keydown_keyup_roundtrip_witness:
  "flagOfKey ''W'' = Some ''forward'' \<and>
   initialControls ''forward'' = Some False \<and>
   handleKeyDown ''W'' initialControls ''forward'' = Some True \<and>
   handleKeyDown ''W'' initialControls \<noteq> initialControls \<and>
   handleKeyUp ''W'' (handleKeyDown ''W'' initialControls) = initialControls \<and>
   handleKeyUp ''Shift'' (handleKeyDown ''Shift'' (initialControls(''shift'' \<mapsto> True)))
     = (initialControls(''shift'' \<mapsto> True))(''shift'' \<mapsto> False)"
proof -
  have w: "flagOfKey ''W'' = Some ''forward''"
    by (simp add: flagOfKey_def keyFlagMapping_def toLowerCase_def toLowerCaseChar_def
        asciiUpper_def asciiLower_def)
  have s: "flagOfKey ''Shift'' = Some ''shift''"
    by (simp add: flagOfKey_def keyFlagMapping_def toLowerCase_def toLowerCaseChar_def
        asciiUpper_def asciiLower_def)
  have f: "initialControls ''forward'' = Some False"
    by (simp add: initialControls_def)
  note a = keydown_keyup_roundtrip [OF w, of initialControls]
  note b = keydown_keyup_roundtrip [OF s, of "initialControls(''shift'' \<mapsto> True)"]
  from a f have ne: "handleKeyDown ''W'' initialControls \<noteq> initialControls"
    by auto
  from a b f w ne show ?thesis
    by blast
qed

lemma distinct_asciiUpper: "distinct asciiUpper"
  by (simp add: asciiUpper_def)

lemma length_ascii: "length asciiUpper = length asciiLower"
  by (simp add: asciiUpper_def asciiLower_def)

lemma asciiLower_not_upper: "b \<in> set asciiLower \<Longrightarrow> b \<notin> set asciiUpper"
  unfolding asciiUpper_def asciiLower_def by auto

lemma toLowerCaseChar_capital:
  assumes "(a, b) \<in> set (zip asciiUpper asciiLower)"
  shows "toLowerCaseChar a = b"
proof -
  have "distinct (map fst (zip asciiUpper asciiLower))"
    by (simp add: length_ascii distinct_asciiUpper)
  then have "map_of (zip asciiUpper asciiLower) a = Some b"
    using assms by (rule map_of_is_SomeI)
  then show ?thesis
    by (simp add: toLowerCaseChar_def)
qed

lemma toLowerCaseChar_small:
  assumes "b \<in> set asciiLower"
  shows "toLowerCaseChar b = b"
proof -
  have "b \<notin> fst ` set (zip asciiUpper asciiLower)"
    using asciiLower_not_upper [OF assms] by (auto dest: set_zip_leftD)
  then have "map_of (zip asciiUpper asciiLower) b = None"
    by (simp add: map_of_eq_None_iff)
  then show ?thesis
    by (simp add: toLowerCaseChar_def)
qed

lemma toLowerCaseChar_pair:
  assumes "(a, b) \<in> set (zip asciiUpper asciiLower)"
  shows "toLowerCaseChar a = toLowerCaseChar b"
  using toLowerCaseChar_capital [OF assms] toLowerCaseChar_small [OF set_zip_rightD [OF assms]]
  by simp

lemma toLowerCaseChar_sameLetter:
  "sameLetter a b \<Longrightarrow> toLowerCaseChar a = toLowerCaseChar b"
  unfolding sameLetter_def
  using toLowerCaseChar_pair [of a b] toLowerCaseChar_pair [of b a] by auto

lemma toLowerCase_sameKey:
  "sameKeyIgnoringCase k1 k2 \<Longrightarrow> toLowerCase k1 = toLowerCase k2"
  unfolding sameKeyIgnoringCase_def toLowerCase_def
  by (induction k1 k2 rule: list_all2_induct) (simp_all add: toLowerCaseChar_sameLetter)

text \<open>
  C10. Key matching ignores letter case: both handlers lower-case the event's key first,
  so two key strings that differ only in the case of their letters (\<open>W\<close> and \<open>w\<close>,
  \<open>Shift\<close> and \<open>SHIFT\<close>) give the same snapshot update, on key-down and on key-up.
\<close>

theorem key_matching_ignores_case:
  "sameKeyIgnoringCase k1 k2 \<Longrightarrow>
     handleKeyDown k1 c = handleKeyDown k2 c \<and> handleKeyUp k1 c = handleKeyUp k2 c"
  by (simp add: handleKeyDown_def handleKeyUp_def toLowerCase_sameKey)

theorem key_matching_ignores_case_witness:
  "sameKeyIgnoringCase ''Shift'' ''SHIFT'' \<and>
   handleKeyDown ''Shift'' initialControls = handleKeyDown ''SHIFT'' initialControls \<and>
   handleKeyUp ''Shift'' initialControls = handleKeyUp ''SHIFT'' initialControls \<and>
   sameKeyIgnoringCase ''W'' ''w'' \<and>
   handleKeyDown ''W'' initialControls = handleKeyDown ''w'' initialControls"
proof -
  have s: "sameKeyIgnoringCase ''Shift'' ''SHIFT''"
    by (simp add: sameKeyIgnoringCase_def sameLetter_def asciiUpper_def asciiLower_def)
  have w: "sameKeyIgnoringCase ''W'' ''w''"
    by (simp add: sameKeyIgnoringCase_def sameLetter_def asciiUpper_def asciiLower_def)
  from key_matching_ignores_case [OF s, of initialControls]
    key_matching_ignores_case [OF w, of initialControls] s w
  show ?thesis
    by blast
qed





text \<open>
  How one event changes the snapshot: a key outside the mapping that names no inherited
  property changes nothing; a key that names one writes a single property that is none
  of the seven flags; and in every case each flag other than the key's own keeps its
  value.
\<close>

lemma flagOfKey_NoneD:
  "flagOfKey k = None \<Longrightarrow>
     toLowerCase k \<noteq> ''w'' \<and> toLowerCase k \<noteq> ''s'' \<and> toLowerCase k \<noteq> ''a'' \<and>
     toLowerCase k \<noteq> ''d'' \<and> toLowerCase k \<noteq> ''e'' \<and> toLowerCase k \<noteq> ''shift'' \<and>
     toLowerCase k \<noteq> ''c''"
  by (simp add: flagOfKey_def keyFlagMapping_def split: if_splits)

lemma handleKeyDown_unmapped:
  "flagOfKey k = None \<Longrightarrow> \<not> inheritedName (toLowerCase k) \<Longrightarrow> handleKeyDown k c = c"
  by (drule flagOfKey_NoneD) (simp add: handleKeyDown_def keyActionMap_def inheritedName_def)

lemma handleKeyUp_unmapped:
  "flagOfKey k = None \<Longrightarrow> \<not> inheritedName (toLowerCase k) \<Longrightarrow> handleKeyUp k c = c"
  by (drule flagOfKey_NoneD) (simp add: handleKeyUp_def keyActionMap_def inheritedName_def)

lemma handleKeyDown_inherited:
  "inheritedName (toLowerCase k) \<Longrightarrow>
     handleKeyDown k c = c(toPropertyKey (keyActionMap (toLowerCase k)) \<mapsto> True)"
  unfolding inheritedName_def
  by (elim disjE) (simp_all add: handleKeyDown_def keyActionMap_def)

lemma handleKeyUp_inherited:
  "inheritedName (toLowerCase k) \<Longrightarrow>
     handleKeyUp k c = c(toPropertyKey (keyActionMap (toLowerCase k)) \<mapsto> False)"
  unfolding inheritedName_def
  by (elim disjE) (simp_all add: handleKeyUp_def keyActionMap_def)

lemma inherited_key_not_flag:
  "inheritedName key \<Longrightarrow> toPropertyKey (keyActionMap key) \<notin> set flagNames"
  unfolding inheritedName_def
  by (elim disjE) (simp_all add: keyActionMap_def flagNames_def)

lemma handleKeyDown_other_flags:
  assumes "g \<in> set flagNames" and "flagOfKey k \<noteq> Some g"
  shows "handleKeyDown k c g = c g"
proof (cases "flagOfKey k")
  case (Some f)
  with assms(2) have "f \<noteq> g" by simp
  then show ?thesis
    by (simp add: handleKeyDown_mapped [OF Some])
next
  case None
  show ?thesis
  proof (cases "inheritedName (toLowerCase k)")
    case True
    from inherited_key_not_flag [OF True] assms(1)
    have "toPropertyKey (keyActionMap (toLowerCase k)) \<noteq> g" by blast
    then show ?thesis
      by (simp add: handleKeyDown_inherited [OF True])
  next
    case False
    then show ?thesis
      by (simp add: handleKeyDown_unmapped [OF None])
  qed
qed

lemma handleKeyUp_other_flags:
  assumes "g \<in> set flagNames" and "flagOfKey k \<noteq> Some g"
  shows "handleKeyUp k c g = c g"
proof (cases "flagOfKey k")
  case (Some f)
  with assms(2) have "f \<noteq> g" by simp
  then show ?thesis
    by (simp add: handleKeyUp_mapped [OF Some])
next
  case None
  show ?thesis
  proof (cases "inheritedName (toLowerCase k)")
    case True
    from inherited_key_not_flag [OF True] assms(1)
    have "toPropertyKey (keyActionMap (toLowerCase k)) \<noteq> g" by blast
    then show ?thesis
      by (simp add: handleKeyUp_inherited [OF True])
  next
    case False
    then show ?thesis
      by (simp add: handleKeyUp_unmapped [OF None])
  qed
qed









text \<open>
  C9. A key event changes at most the flag that the mapping assigns to its key, and an
  event for a key outside the mapping leaves the snapshot unchanged. The lemmas above
  show the first part for every key, and the second for every key that does not name an
  inherited property. For the key \<open>constructor\<close>, which is outside the mapping, the lookup
  in \<open>keyActionMap\<close> finds the inherited function \<open>Object\<close>, the guard passes, and key-down
  writes a property named after that function into the snapshot.
\<close>

theorem keydown_constructor_adds_property:
  "flagOfKey ''constructor'' = None \<and>
   handleKeyDown ''constructor'' initialControls
     = initialControls(''function Object() { [native code] }'' \<mapsto> True) \<and>
   handleKeyDown ''constructor'' initialControls \<noteq> initialControls"
proof -
  have lc: "toLowerCase ''constructor'' = ''constructor''"
    by (simp add: toLowerCase_def toLowerCaseChar_def asciiUpper_def asciiLower_def)
  have a: "flagOfKey ''constructor'' = None"
    by (simp add: flagOfKey_def keyFlagMapping_def lc)
  have b: "handleKeyDown ''constructor'' initialControls
     = initialControls(''function Object() { [native code] }'' \<mapsto> True)"
    by (simp add: handleKeyDown_def keyActionMap_def lc)
  have "initialControls ''function Object() { [native code] }'' = None"
    by (simp add: initialControls_def)
  then have "initialControls(''function Object() { [native code] }'' \<mapsto> True) \<noteq> initialControls"
    by (metis fun_upd_same option.distinct(1))
  with a b show ?thesis by simp
qed

section \<open>Properties of the portal check and the camera update\<close>

lemma withinTrigger_squares:
  "withinTrigger (x, y, z) p =
     (case position p of (px, py, pz) \<Rightarrow>
        0 < triggerRadius p \<and> (x - px)\<^sup>2 + (y - py)\<^sup>2 + (z - pz)\<^sup>2 < (triggerRadius p)\<^sup>2)"
proof (cases "position p")
  case (fields px py pz)
  let ?s = "(x - px)\<^sup>2 + (y - py)\<^sup>2 + (z - pz)\<^sup>2"
  have s0: "0 \<le> ?s" by simp
  have "sqrt ?s < triggerRadius p \<longleftrightarrow> 0 < triggerRadius p \<and> ?s < (triggerRadius p)\<^sup>2"
  proof
    assume lt: "sqrt ?s < triggerRadius p"
    have "0 \<le> sqrt ?s" using s0 by simp
    with lt have r: "0 < triggerRadius p" by linarith
    have "(sqrt ?s)\<^sup>2 < (triggerRadius p)\<^sup>2"
      using lt \<open>0 \<le> sqrt ?s\<close> by (intro power_strict_mono) simp_all
    with s0 r show "0 < triggerRadius p \<and> ?s < (triggerRadius p)\<^sup>2" by simp
  next
    assume "0 < triggerRadius p \<and> ?s < (triggerRadius p)\<^sup>2"
    then show "sqrt ?s < triggerRadius p"
      by (intro real_less_lsqrt) simp_all
  qed
  then show ?thesis
    using fields by (simp add: withinTrigger_def distanceTo_def)
qed

text \<open>
  C3. The per-frame portal check. While the machine is transitioning no request is
  submitted. Otherwise, if a portal registered to the current mode is within its trigger
  radius (distance strictly below the radius) and no portal registered before it is, the
  request submitted is for that portal's target mode: of several portals in range the
  first in registration order is taken and the others are ignored. If no registered
  portal is in range, no request is submitted.
\<close>

theorem portal_check_first_in_range:
  "(isTransitioning mode \<longrightarrow> evaluatePortals registry mode pos = None) \<and>
   (\<not> isTransitioning mode \<longrightarrow>
      (\<forall>i < length (registry mode).
          withinTrigger pos (registry mode ! i) \<and>
          (\<forall>j < i. \<not> withinTrigger pos (registry mode ! j)) \<longrightarrow>
          evaluatePortals registry mode pos = Some (targetMode (registry mode ! i))) \<and>
      ((\<forall>p \<in> set (registry mode). \<not> withinTrigger pos p) \<longrightarrow>
          evaluatePortals registry mode pos = None))"
proof (intro conjI impI allI)
  assume "isTransitioning mode"
  then show "evaluatePortals registry mode pos = None"
    by (simp add: evaluatePortals_def)
next
  fix i
  assume nt: "\<not> isTransitioning mode" and i: "i < length (registry mode)"
    and first: "withinTrigger pos (registry mode ! i) \<and>
      (\<forall>j < i. \<not> withinTrigger pos (registry mode ! j))"
  then have "find (withinTrigger pos) (registry mode) = Some (registry mode ! i)"
    unfolding find_Some_iff by blast
  with nt show "evaluatePortals registry mode pos = Some (targetMode (registry mode ! i))"
    by (simp add: evaluatePortals_def)
next
  assume nt: "\<not> isTransitioning mode"
    and none: "\<forall>p \<in> set (registry mode). \<not> withinTrigger pos p"
  then have "find (withinTrigger pos) (registry mode) = None"
    unfolding find_None_iff by blast
  with nt show "evaluatePortals registry mode pos = None"
    by (simp add: evaluatePortals_def)
qed

theorem portal_check_first_in_range_witness:
  "evaluatePortals levelOnePortals OnFootLevel1 (10, 0, 1 / 2) = Some OnFootOrDrivingLevel2 \<and>
   withinTrigger (10, 0, 1 / 2) (levelOnePortals OnFootLevel1 ! 1) \<and>
   evaluatePortals levelOnePortals TransitioningToLevel2 (10, 0, 1 / 2) = None"
proof -
  have a: "withinTrigger (10, 0, 1 / 2) (levelOnePortals OnFootLevel1 ! 0)"
    by (simp add: withinTrigger_squares levelOnePortals_def power2_eq_square)
  have b: "withinTrigger (10, 0, 1 / 2) (levelOnePortals OnFootLevel1 ! 1)"
    by (simp add: withinTrigger_squares levelOnePortals_def power2_eq_square)
  have l: "0 < length (levelOnePortals OnFootLevel1)"
    by (simp add: levelOnePortals_def)
  have t: "targetMode (levelOnePortals OnFootLevel1 ! 0) = OnFootOrDrivingLevel2"
    by (simp add: levelOnePortals_def)
  from portal_check_first_in_range [of OnFootLevel1 levelOnePortals "(10, 0, 1 / 2)"] a l
  have "evaluatePortals levelOnePortals OnFootLevel1 (10, 0, 1 / 2)
      = Some (targetMode (levelOnePortals OnFootLevel1 ! 0))"
    by simp
  moreover from portal_check_first_in_range [of TransitioningToLevel2 levelOnePortals "(10, 0, 1 / 2)"]
  have "evaluatePortals levelOnePortals TransitioningToLevel2 (10, 0, 1 / 2) = None"
    by simp
  ultimately show ?thesis
    using b t by simp
qed

lemma vlength_vscale: "vlength (vscale k v) = \<bar>k\<bar> * vlength v"
proof (cases v)
  case (fields x y z)
  have "(k * x)\<^sup>2 + (k * y)\<^sup>2 + (k * z)\<^sup>2 = k\<^sup>2 * (x\<^sup>2 + y\<^sup>2 + z\<^sup>2)"
    by (simp add: power_mult_distrib distrib_left)
  then show ?thesis
    using fields by (simp add: real_sqrt_mult)
qed

lemma vlength_minus: "vlength (vsub p q) = vlength (vsub q p)"
  by (cases p, cases q) (simp add: power2_commute)

lemma followRate_pos: "0 < followRate mode"
  by (simp add: followRate_def)

lemma remaining_offset:
  "vsub desired (vadd pos (vscale t (vsub desired pos))) = vscale (1 - t) (vsub desired pos)"
  by (cases desired, cases pos) (simp add: algebra_simps)

text \<open>
  C8. The per-frame camera update moves the camera by the offset to the desired position
  times \<open>t = min 1 (dt * followRate)\<close>, with follow rate 5 in steady modes and 2 while
  transitioning. For every \<open>dt > 0\<close> the factor lies in \<open>(0, 1]\<close>, so the offset that remains
  is the old offset scaled by \<open>1 - t\<close>, which is in \<open>[0, 1)\<close>: the camera stays on the segment
  between its old position and the desired one and never passes the desired position.
\<close>

theorem camera_step_no_overshoot:
  "0 < dt \<Longrightarrow>
     (let t = min 1 (dt * followRate mode); new = cameraStep mode dt desired pos in
        followRate mode = (if isTransitioning mode then 2 else 5) \<and>
        0 < t \<and> t \<le> 1 \<and>
        vsub new pos = vscale t (vsub desired pos) \<and>
        vsub desired new = vscale (1 - t) (vsub desired pos) \<and>
        distanceTo desired new = (1 - t) * distanceTo desired pos \<and>
        distanceTo desired new \<le> distanceTo desired pos)"
proof -
  assume dt: "0 < dt"
  define t where "t = min 1 (dt * followRate mode)"
  define new where "new = cameraStep mode dt desired pos"
  have new_eq: "new = vadd pos (vscale t (vsub desired pos))"
    by (simp add: new_def t_def cameraStep_def)
  have t_pos: "0 < t" and t_le: "t \<le> 1"
    using dt followRate_pos [of mode] by (simp_all add: t_def)
  have moved: "vsub new pos = vscale t (vsub desired pos)"
    unfolding new_eq by (cases desired, cases pos) simp
  have rest: "vsub desired new = vscale (1 - t) (vsub desired pos)"
    unfolding new_eq by (rule remaining_offset)
  have dist: "distanceTo desired new = (1 - t) * distanceTo desired pos"
    using t_le by (simp add: distanceTo_def rest vlength_vscale)
  have "0 \<le> distanceTo desired pos"
    by (cases desired, cases pos) (simp add: distanceTo_def)
  then have "(1 - t) * distanceTo desired pos \<le> 1 * distanceTo desired pos"
    using t_pos by (intro mult_right_mono) simp_all
  with dist have le: "distanceTo desired new \<le> distanceTo desired pos"
    by simp
  have rate: "followRate mode = (if isTransitioning mode then 2 else 5)"
    by (simp add: followRate_def)
  show ?thesis
    unfolding Let_def t_def [symmetric] new_def [symmetric]
    using rate t_pos t_le moved rest dist le by blast
qed

theorem camera_step_no_overshoot_witness:
  "(0::real) < 1 / 10 \<and>
   cameraStep OnFootLevel1 (1 / 10) (2, 0, 0) (0, 0, 0) = (1, 0, 0) \<and>
   distanceTo (2, 0, 0) (cameraStep OnFootLevel1 (1 / 10) (2, 0, 0) (0, 0, 0))
     \<le> distanceTo (2, 0, 0) (0, 0, 0) \<and>
   cameraStep TransitioningToLevel2 3 (2, 0, 0) (0, 0, 0) = (2, 0, 0)"
proof -
  have dt: "(0::real) < 1 / 10" by simp
  have a: "cameraStep OnFootLevel1 (1 / 10) (2, 0, 0) (0, 0, 0) = (1, 0, 0)"
    by (simp add: cameraStep_def followRate_def)
  have b: "cameraStep TransitioningToLevel2 3 (2, 0, 0) (0, 0, 0) = (2, 0, 0)"
    by (simp add: cameraStep_def followRate_def)
  from camera_step_no_overshoot [OF dt, of OnFootLevel1 "(2, 0, 0)" "(0, 0, 0)"]
  have "distanceTo (2, 0, 0) (cameraStep OnFootLevel1 (1 / 10) (2, 0, 0) (0, 0, 0))
     \<le> distanceTo (2, 0, 0) (0, 0, 0)"
    unfolding Let_def by blast
  with dt a b show ?thesis by simp
qed

end
